theory Spec2Isabelle
  imports Complex_Main "HOL-Library.Word" "HOL-Library.Sublist" "HOL-Library.Code_Target_Numeral"
begin

text \<open>
  A model of the node-vcam sources at hand: the two maintenance scripts (format, check)
  and the sample \<^verbatim>\<open>samples/demo.ts\<close>, and what is proved about them. The definitions come
  first, then the lemmas, then the claims.
\<close>

section \<open>The maintenance scripts: format and check\<close>

text \<open>
  Both scripts are straight-line TypeScript: two calls of Node's \<^verbatim>\<open>execSync\<close>, each
  with the option \<^verbatim>\<open>{ stdio: "inherit" }\<close>.

  \<^verbatim>\<open>execSync\<close> starts a shell on the command line, waits until the child has exited
  and throws when the exit status is not zero; the scripts catch nothing, so the throw
  ends the script. What a command line does and which status it exits with belongs to
  the machine the script runs on: the model takes it as a parameter, a function from
  the state of the machine and the command line to the exit status and the state of
  the machine afterwards. (A child ended by a signal has no exit status; that case is
  left out of the model.)
\<close>

type_synonym 'w host = "'w \<Rightarrow> string \<Rightarrow> nat \<times> 'w"

datatype stdio = Inherit | Pipe

datatype proc_event =
    Spawned string stdio
  | Exited string nat

record 'w proc =
  world :: 'w
  events :: "proc_event list"

datatype exec_error = Exec_failed string nat

datatype 'w result =
    Returned "'w proc"
  | Threw exec_error "'w proc"

definition execSync :: "'w host \<Rightarrow> string \<Rightarrow> stdio \<Rightarrow> 'w proc \<Rightarrow> 'w result" where
  "execSync host command io p =
     (case host (world p) command of
        (status, w') \<Rightarrow>
          (let p' = \<lparr>world = w',
                     events = events p @ [Spawned command io, Exited command status]\<rparr>
           in if status = 0 then Returned p' else Threw (Exec_failed command status) p'))"

text \<open>Statement sequencing: a throw skips everything after it.\<close>

definition and_then :: "'w result \<Rightarrow> ('w proc \<Rightarrow> 'w result) \<Rightarrow> 'w result" where
  "and_then r stmt = (case r of Returned p \<Rightarrow> stmt p | Threw e p \<Rightarrow> Threw e p)"

definition boot :: "'w \<Rightarrow> 'w proc" where
  "boot w = \<lparr>world = w, events = []\<rparr>"

definition format_script :: "'w host \<Rightarrow> 'w \<Rightarrow> 'w result" where
  \<open>format_script host w =
     and_then (execSync host ''prettier --write "**/*.{js,ts,json}"'' Inherit (boot w))
       (execSync host ''cargo fmt'' Inherit)\<close>

definition check_script :: "'w host \<Rightarrow> 'w \<Rightarrow> 'w result" where
  \<open>check_script host w =
     and_then (execSync host ''prettier --check "**/*.{js,ts,json}"'' Inherit (boot w))
       (execSync host ''eslint . --ext ".ts,.js"'' Inherit)\<close>

text \<open>Reading a run: did it end in an uncaught throw, and what happened on the way.\<close>

fun aborted :: "'w result \<Rightarrow> bool" where
  "aborted (Returned p) = False"
| "aborted (Threw e p) = True"

fun history :: "'w result \<Rightarrow> proc_event list" where
  "history (Returned p) = events p"
| "history (Threw e p) = events p"

fun spawned :: "proc_event list \<Rightarrow> string list" where
  "spawned [] = []"
| "spawned (Spawned c io # es) = c # spawned es"
| "spawned (Exited c n # es) = spawned es"

definition commands_run :: "'w result \<Rightarrow> string list" where
  "commands_run r = spawned (history r)"

text \<open>
  \<open>includes_str s t\<close>: the string \<open>t\<close> occurs in \<open>s\<close>, as JavaScript's
  \<^verbatim>\<open>s.includes(t)\<close>. It is used to say that a command line has no flag that makes
  the tool write.
\<close>

fun includes_str :: "string \<Rightarrow> string \<Rightarrow> bool" where
  "includes_str [] t = (t = [])"
| "includes_str (c # s) t = (prefix t (c # s) \<or> includes_str s t)"

section \<open>The demo\<close>

text \<open>
  The demo is one module: six top-level statements, the last of which hands a callback
  to \<^verbatim>\<open>setInterval\<close>. The model has two layers.

  The runtime holds what the statements act on: the heap of typed arrays (a map from
  addresses to byte lists, so that a buffer keeps its identity while its bytes change),
  whether the interval is registered and with which delay, and the effects the module
  has had on the world, in order. One more field is bookkeeping for the proofs: the index of every element
  write, in order, whether or not it was in range.

  The module's own variables (\<^verbatim>\<open>FPS\<close>, \<^verbatim>\<open>camera\<close>, \<^verbatim>\<open>pixels\<close>, \<^verbatim>\<open>timer\<close>) sit beside
  the runtime.
\<close>

type_synonym u8 = "8 word"

type_synonym addr = nat

text \<open>
  Modelled from the spec: the class \<^verbatim>\<open>Camera\<close> of \<^verbatim>\<open>../index.ts\<close>, which the demo imports
  and the sources do not hold. The spec gives its shape only:
  \<^verbatim>\<open>new Camera(width: number, height: number)\<close>, \<^verbatim>\<open>.start(): void\<close> and
  \<^verbatim>\<open>.send(buffer: Uint8Array): void\<close>, an object that "accepts frame buffers via a send
  method". So a camera is the pair it was constructed with; constructing it, starting
  it and sending to it are effects recorded in order; each call returns and leaves the
  caller's variables and the bytes of the buffer as they were. \<^verbatim>\<open>send\<close> is given a
  reference: the effect records the address, and the bytes the buffer holds at the call.
\<close>

datatype camera = Camera nat nat

datatype effect =
    Constructed camera
  | Allocated addr nat
  | Started camera
  | Interval_set
  | Sent camera addr "u8 list"

record runtime =
  heap :: "addr \<Rightarrow> u8 list option"
  next_addr :: addr
  interval :: bool
  delay :: "rat option"
  trace :: "effect list"
  writes :: "nat list"

record demo =
  FPS :: nat
  camera :: camera
  pixels :: addr
  timer :: nat
  rt :: runtime

definition startup :: runtime where
  "startup =
     \<lparr>heap = Map.empty, next_addr = 0, interval = False, delay = None, trace = [],
      writes = []\<rparr>"

definition new_Camera :: "nat \<Rightarrow> nat \<Rightarrow> runtime \<Rightarrow> camera \<times> runtime" where
  "new_Camera width height r =
     (Camera width height, r\<lparr>trace := trace r @ [Constructed (Camera width height)]\<rparr>)"

definition Camera_start :: "camera \<Rightarrow> runtime \<Rightarrow> runtime" where
  "Camera_start c r = r\<lparr>trace := trace r @ [Started c]\<rparr>"

definition Camera_send :: "camera \<Rightarrow> addr \<Rightarrow> runtime \<Rightarrow> runtime" where
  "Camera_send c a r =
     (case heap r a of
        None \<Rightarrow> r
      | Some b \<Rightarrow> r\<lparr>trace := trace r @ [Sent c a b]\<rparr>)"

text \<open>\<^verbatim>\<open>new Uint8Array(n)\<close>: a fresh buffer of \<open>n\<close> zero bytes.\<close>

definition new_Uint8Array :: "nat \<Rightarrow> runtime \<Rightarrow> addr \<times> runtime" where
  "new_Uint8Array n r =
     (next_addr r,
      r\<lparr>heap := (heap r)(next_addr r \<mapsto> replicate n 0),
        next_addr := Suc (next_addr r),
        trace := trace r @ [Allocated (next_addr r) n]\<rparr>)"

text \<open>
  \<^verbatim>\<open>a[k] = v\<close> on a Uint8Array. The number is stored modulo 256. An index past the end
  is no error in JavaScript and does not grow a typed array: the write is dropped.
\<close>

definition store_u8 :: "addr \<Rightarrow> nat \<Rightarrow> nat \<Rightarrow> runtime \<Rightarrow> runtime" where
  "store_u8 a k v r =
     (case heap r a of
        None \<Rightarrow> r
      | Some b \<Rightarrow>
          r\<lparr>heap := (heap r)(a \<mapsto> (if k < length b then b[k := of_nat v] else b)),
            writes := writes r @ [k]\<rparr>)"

text \<open>
  The division \<^verbatim>\<open>1000.0 / FPS\<close>. A JavaScript number is a binary64 float, and \<^verbatim>\<open>/\<close> gives
  the exact quotient rounded to the nearest binary64 number, a tie going to the
  neighbour with the even significand. A finite number is modelled by the rational it
  denotes; \<open>None\<close> stands for a result that is no finite number (a division by zero, an
  overflow).

  \<open>exponent q\<close> is the \<open>e\<close> with \<open>2 ^ e \<le> q < 2 ^ (e + 1)\<close> for a positive \<open>q\<close>, found by
  halving or doubling; the fuel is the range of binary64 exponents, from -1074 to 1023.
  A binary64 number has 53 significant bits, so one unit in its last place is
  \<open>2 ^ (e - 52)\<close>, and never less than \<open>2 ^ - 1074\<close> (the subnormal numbers).
\<close>

primrec halvings :: "nat \<Rightarrow> rat \<Rightarrow> int" where
  "halvings 0 q = 0"
| "halvings (Suc fuel) q = (if 2 \<le> q then halvings fuel (q / 2) + 1 else 0)"

primrec doublings :: "nat \<Rightarrow> rat \<Rightarrow> int" where
  "doublings 0 q = 0"
| "doublings (Suc fuel) q = (if q < 1 then doublings fuel (q * 2) - 1 else 0)"

definition exponent :: "rat \<Rightarrow> int" where
  "exponent q = (if 1 \<le> q then halvings 1023 q else doublings 1074 q)"

definition round_half_even :: "rat \<Rightarrow> int" where
  "round_half_even q =
     (let f = \<lfloor>q\<rfloor>; d = q - of_int f
      in if d < 1 / 2 then f else if 1 / 2 < d then f + 1 else if even f then f else f + 1)"

definition round_binary64 :: "rat \<Rightarrow> rat option" where
  "round_binary64 q =
     (if q = 0 then Some 0
      else
        (let a = \<bar>q\<bar>;
             u = max (exponent a - 52) (- 1074);
             m = round_half_even (a / power_int 2 u);
             r = of_int m * power_int 2 u
         in if 2 ^ 1024 \<le> r then None else Some (sgn q * r)))"

definition binary64_div :: "rat \<Rightarrow> rat \<Rightarrow> rat option" where
  "binary64_div x y = (if y = 0 then None else round_binary64 (x / y))"

text \<open>
  \<^verbatim>\<open>setInterval(callback, delay)\<close> registers the callback as a repeating timer with the
  delay it is given, in milliseconds; the handle it returns is dropped by the demo. The
  model keeps the delay as the demo passes it. What the host makes of it (Node and the
  browsers round or clamp a delay in their own ways) and the moments at which the
  callback fires are the host's business and not part of the model.
\<close>

definition setInterval :: "rat option \<Rightarrow> runtime \<Rightarrow> runtime" where
  "setInterval d r = r\<lparr>interval := True, delay := d, trace := trace r @ [Interval_set]\<rparr>"

text \<open>
  \<^verbatim>\<open>timer++\<close>. A JavaScript number is a binary64 float. Counting up from 0 it is exact
  up to \<open>2 ^ 53\<close>; there \<open>2 ^ 53 + 1\<close> has no representation and rounds (ties to even)
  back to \<open>2 ^ 53\<close>, so the counter stays. The function is meant for arguments up to
  \<open>2 ^ 53\<close>, the only ones the counter takes.
\<close>

definition increment :: "nat \<Rightarrow> nat" where
  "increment x = (if x < 2 ^ 53 then x + 1 else x)"

text \<open>
  The body of the inner loop, the inner loop over \<open>j\<close> and the outer loop over \<open>i\<close>.
  The callback reads the variables \<^verbatim>\<open>timer\<close> and \<^verbatim>\<open>pixels\<close>; the loops do not assign
  them, so their values come in as the parameters \<open>t\<close> and \<open>p\<close>.
\<close>

definition body :: "nat \<Rightarrow> addr \<Rightarrow> nat \<Rightarrow> nat \<Rightarrow> runtime \<Rightarrow> runtime" where
  "body t p i j r0 =
     (let off = i * 1280 + j;
          r1 = store_u8 p (4 * off) (t mod 256) r0;
          r2 = store_u8 p (4 * off + 1) 0 r1;
          r3 = store_u8 p (4 * off + 2) (i mod 256) r2;
          r4 = store_u8 p (4 * off + 3) 255 r3
      in r4)"

function for_j :: "nat \<Rightarrow> addr \<Rightarrow> nat \<Rightarrow> nat \<Rightarrow> runtime \<Rightarrow> runtime" where
  "for_j t p i j r =
     (if j < 1280 then for_j t p i (j + 1) (body t p i j r) else r)"
  by pat_completeness auto
termination
  by (relation "measure (\<lambda>(t, p, i, j, r). 1280 - j)") auto

declare for_j.simps [simp del]

function for_i :: "nat \<Rightarrow> addr \<Rightarrow> nat \<Rightarrow> runtime \<Rightarrow> runtime" where
  "for_i t p i r =
     (if i < 720 then for_i t p (i + 1) (for_j t p i 0 r) else r)"
  by pat_completeness auto
termination
  by (relation "measure (\<lambda>(t, p, i, r). 720 - i)") auto

declare for_i.simps [simp del]

text \<open>The callback handed to \<^verbatim>\<open>setInterval\<close>.\<close>

definition callback :: "demo \<Rightarrow> demo" where
  "callback s =
     (let r1 = for_i (timer s) (pixels s) 0 (rt s);
          r2 = Camera_send (camera s) (pixels s) r1
      in s\<lparr>rt := r2, timer := increment (timer s)\<rparr>)"

text \<open>The module's top level, statement by statement: the state when it has run.\<close>

definition main :: demo where
  "main =
     (let FPS = 60;
          (camera, r1) = new_Camera 1280 720 startup;
          (pixels, r2) = new_Uint8Array (1280 * 720 * 4) r1;
          timer = 0;
          r3 = Camera_start camera r2;
          r4 = setInterval (binary64_div 1000 (of_nat FPS)) r3
      in \<lparr>FPS = FPS, camera = camera, pixels = pixels, timer = timer, rt = r4\<rparr>)"

text \<open>
  After the top level the host fires the callback of a registered interval again and
  again, one call at a time (JavaScript runs a callback to its end before the next).
  \<open>run n\<close> is the state after \<open>n\<close> firings: the \<open>n\<close>-th call of the callback, counted
  from 0, starts in \<open>run n\<close> and ends in \<open>run (Suc n)\<close>.
\<close>

definition fire :: "demo \<Rightarrow> demo" where
  "fire s = (if interval (rt s) then callback s else s)"

primrec run :: "nat \<Rightarrow> demo" where
  "run 0 = main"
| "run (Suc n) = fire (run n)"

text \<open>The bytes of the buffer the variable \<^verbatim>\<open>pixels\<close> refers to.\<close>

definition buffer :: "demo \<Rightarrow> u8 list" where
  "buffer s = (case heap (rt s) (pixels s) of None \<Rightarrow> [] | Some b \<Rightarrow> b)"

text \<open>
  What the claims say a frame holds: the byte at index \<open>k\<close> of the frame painted on a
  call that starts with the counter at \<open>n\<close>. Row \<open>i\<close> is \<open>k div 4 div 1280\<close>.
\<close>

definition frame_byte :: "nat \<Rightarrow> nat \<Rightarrow> u8" where
  "frame_byte n k =
     (if k mod 4 = 0 then of_nat (n mod 256)
      else if k mod 4 = 1 then 0
      else if k mod 4 = 2 then of_nat (k div 4 div 1280 mod 256)
      else 255)"

definition frame_of :: "nat \<Rightarrow> u8 list" where
  "frame_of n = map (frame_byte n) [0..<1280 * 720 * 4]"

text \<open>The effects that are calls into the camera.\<close>

fun is_camera_call :: "effect \<Rightarrow> bool" where
  "is_camera_call (Constructed c) = True"
| "is_camera_call (Allocated a n) = False"
| "is_camera_call (Started c) = True"
| "is_camera_call Interval_set = False"
| "is_camera_call (Sent c a b) = True"

text \<open>
  Two definitions for the proofs about the loops: the bytes of a buffer \<open>b\<close> once the
  indices below \<open>m\<close> have been painted, and the runtime in which the buffer at \<open>a\<close> has
  been painted so far, with the writes logged.
\<close>

definition painted :: "nat \<Rightarrow> nat \<Rightarrow> u8 list \<Rightarrow> u8 list" where
  "painted n m b = map (\<lambda>k. if k < m then frame_byte n k else b ! k) [0..<length b]"

definition paint :: "addr \<Rightarrow> nat \<Rightarrow> nat \<Rightarrow> runtime \<Rightarrow> runtime" where
  "paint a n m r =
     (case heap r a of
        None \<Rightarrow> r
      | Some b \<Rightarrow> r\<lparr>heap := (heap r)(a \<mapsto> painted n m b), writes := writes r @ [0..<m]\<rparr>)"

section \<open>Lemmas about the scripts\<close>

lemma execSync_ok:
  "fst (host (world p) c) = 0 \<Longrightarrow>
   execSync host c io p =
     Returned \<lparr>world = snd (host (world p) c), events = events p @ [Spawned c io, Exited c 0]\<rparr>"
  by (simp add: execSync_def Let_def case_prod_beta)

lemma execSync_fail:
  "fst (host (world p) c) \<noteq> 0 \<Longrightarrow>
   execSync host c io p =
     Threw (Exec_failed c (fst (host (world p) c)))
       \<lparr>world = snd (host (world p) c),
        events = events p @ [Spawned c io, Exited c (fst (host (world p) c))]\<rparr>"
  by (simp add: execSync_def Let_def case_prod_beta)

lemma spawned_append: "spawned (xs @ ys) = spawned xs @ spawned ys"
  by (induction xs rule: spawned.induct) simp_all

lemma format_script_ok:
  assumes \<open>fst (host w ''prettier --write "**/*.{js,ts,json}"'') = 0\<close>
  shows \<open>history (format_script host w) =
    [Spawned ''prettier --write "**/*.{js,ts,json}"'' Inherit,
     Exited ''prettier --write "**/*.{js,ts,json}"'' 0,
     Spawned ''cargo fmt'' Inherit,
     Exited ''cargo fmt''
       (fst (host (snd (host w ''prettier --write "**/*.{js,ts,json}"'')) ''cargo fmt''))]\<close>
  using assms
  by (simp add: format_script_def and_then_def boot_def execSync_ok)
     (simp add: execSync_def Let_def case_prod_beta)

lemma format_script_fail:
  assumes \<open>fst (host w ''prettier --write "**/*.{js,ts,json}"'') \<noteq> 0\<close>
  shows \<open>format_script host w =
    Threw (Exec_failed ''prettier --write "**/*.{js,ts,json}"''
             (fst (host w ''prettier --write "**/*.{js,ts,json}"'')))
      \<lparr>world = snd (host w ''prettier --write "**/*.{js,ts,json}"''),
       events = [Spawned ''prettier --write "**/*.{js,ts,json}"'' Inherit,
                 Exited ''prettier --write "**/*.{js,ts,json}"''
                   (fst (host w ''prettier --write "**/*.{js,ts,json}"''))]\<rparr>\<close>
  using assms by (simp add: format_script_def and_then_def boot_def execSync_fail)

lemma check_script_ok:
  assumes \<open>fst (host w ''prettier --check "**/*.{js,ts,json}"'') = 0\<close>
  shows \<open>history (check_script host w) =
    [Spawned ''prettier --check "**/*.{js,ts,json}"'' Inherit,
     Exited ''prettier --check "**/*.{js,ts,json}"'' 0,
     Spawned ''eslint . --ext ".ts,.js"'' Inherit,
     Exited ''eslint . --ext ".ts,.js"''
       (fst (host (snd (host w ''prettier --check "**/*.{js,ts,json}"''))
               ''eslint . --ext ".ts,.js"''))]\<close>
  using assms
  by (simp add: check_script_def and_then_def boot_def execSync_ok)
     (simp add: execSync_def Let_def case_prod_beta)

lemma check_script_fail:
  assumes \<open>fst (host w ''prettier --check "**/*.{js,ts,json}"'') \<noteq> 0\<close>
  shows \<open>check_script host w =
    Threw (Exec_failed ''prettier --check "**/*.{js,ts,json}"''
             (fst (host w ''prettier --check "**/*.{js,ts,json}"'')))
      \<lparr>world = snd (host w ''prettier --check "**/*.{js,ts,json}"''),
       events = [Spawned ''prettier --check "**/*.{js,ts,json}"'' Inherit,
                 Exited ''prettier --check "**/*.{js,ts,json}"''
                   (fst (host w ''prettier --check "**/*.{js,ts,json}"''))]\<rparr>\<close>
  using assms by (simp add: check_script_def and_then_def boot_def execSync_fail)

section \<open>Lemmas about the demo\<close>

subsection \<open>What the loops paint\<close>

lemma length_painted: "length (painted n m b) = length b"
  by (simp add: painted_def)

lemma painted_0: "painted n 0 b = b"
  by (simp add: painted_def map_nth)

lemma painted_step:
  "m < length b \<Longrightarrow> (painted n m b)[m := frame_byte n m] = painted n (Suc m) b"
  by (rule nth_equalityI) (auto simp: painted_def nth_list_update less_Suc_eq)

lemma painted_full: "length b \<le> m \<Longrightarrow> painted n m b = map (frame_byte n) [0..<length b]"
  by (simp add: painted_def)

lemma paint_0: "paint a n 0 r = r"
  by (cases "heap r a") (simp_all add: paint_def painted_0 map_upd_triv)

lemma store_paint:
  assumes "heap r a = Some b" and "m < length b" and "of_nat v = frame_byte n m"
  shows "store_u8 a m v (paint a n m r) = paint a n (Suc m) r"
  using assms by (simp add: store_u8_def paint_def length_painted painted_step)

lemma frame_byte_pixel:
  assumes "j < 1280"
  shows "frame_byte n (4 * (i * 1280 + j)) = of_nat (n mod 256)"
    and "frame_byte n (Suc (4 * (i * 1280 + j))) = 0"
    and "frame_byte n (Suc (Suc (4 * (i * 1280 + j)))) = of_nat (i mod 256)"
    and "frame_byte n (Suc (Suc (Suc (4 * (i * 1280 + j))))) = 255"
proof -
  let ?off = "i * 1280 + j"
  have m0: "(4 * ?off) mod 4 = 0" by simp
  have m1: "Suc (4 * ?off) mod 4 = 1" by presburger
  have m2: "Suc (Suc (4 * ?off)) mod 4 = 2" by presburger
  have m3: "Suc (Suc (Suc (4 * ?off))) mod 4 = 3" by presburger
  have row: "Suc (Suc (4 * ?off)) div 4 div 1280 = i"
  proof -
    have "Suc (Suc (4 * ?off)) div 4 = ?off" by presburger
    with assms show ?thesis by simp
  qed
  show "frame_byte n (4 * ?off) = of_nat (n mod 256)"
    unfolding frame_byte_def m0 by simp
  show "frame_byte n (Suc (4 * ?off)) = 0"
    unfolding frame_byte_def m1 by simp
  show "frame_byte n (Suc (Suc (4 * ?off))) = of_nat (i mod 256)"
    unfolding frame_byte_def m2 row by simp
  show "frame_byte n (Suc (Suc (Suc (4 * ?off)))) = 255"
    unfolding frame_byte_def m3 by simp
qed

lemma body_paint:
  assumes h: "heap r a = Some b" and j: "j < 1280"
    and len: "4 * (i * 1280 + j) + 3 < length b"
  shows "body n a i j (paint a n (4 * (i * 1280 + j)) r) = paint a n (4 * (i * 1280 + j) + 4) r"
proof -
  let ?m = "4 * (i * 1280 + j)"
  have e1: "?m + 1 = Suc ?m" and e2: "?m + 2 = Suc (Suc ?m)"
    and e3: "?m + 3 = Suc (Suc (Suc ?m))" and e4: "?m + 4 = Suc (Suc (Suc (Suc ?m)))"
    by presburger+
  have s0: "store_u8 a ?m (n mod 256) (paint a n ?m r) = paint a n (Suc ?m) r"
  proof (rule store_paint [OF h])
    show "?m < length b" using len by linarith
    show "of_nat (n mod 256) = frame_byte n ?m"
      by (rule frame_byte_pixel(1) [OF j, symmetric])
  qed
  have s1: "store_u8 a (Suc ?m) 0 (paint a n (Suc ?m) r) = paint a n (Suc (Suc ?m)) r"
  proof (rule store_paint [OF h])
    show "Suc ?m < length b" using len by linarith
    show "of_nat 0 = frame_byte n (Suc ?m)"
      unfolding frame_byte_pixel(2) [OF j] by simp
  qed
  have s2: "store_u8 a (Suc (Suc ?m)) (i mod 256) (paint a n (Suc (Suc ?m)) r)
      = paint a n (Suc (Suc (Suc ?m))) r"
  proof (rule store_paint [OF h])
    show "Suc (Suc ?m) < length b" using len by linarith
    show "of_nat (i mod 256) = frame_byte n (Suc (Suc ?m))"
      by (rule frame_byte_pixel(3) [OF j, symmetric])
  qed
  have s3: "store_u8 a (Suc (Suc (Suc ?m))) 255 (paint a n (Suc (Suc (Suc ?m))) r)
      = paint a n (Suc (Suc (Suc (Suc ?m)))) r"
  proof (rule store_paint [OF h])
    show "Suc (Suc (Suc ?m)) < length b" using len by linarith
    show "of_nat 255 = frame_byte n (Suc (Suc (Suc ?m)))"
      unfolding frame_byte_pixel(4) [OF j] by simp
  qed
  show ?thesis
    unfolding body_def Let_def e1 e2 e3 e4 s0 s1 s2 s3 ..
qed

lemma for_j_paint:
  assumes h: "heap r a = Some b" and len: "4 * (i * 1280 + 1280) \<le> length b"
  shows "j \<le> 1280 \<Longrightarrow>
    for_j n a i j (paint a n (4 * (i * 1280 + j)) r) = paint a n (4 * (i * 1280 + 1280)) r"
proof (induction "1280 - j" arbitrary: j)
  case 0
  then have "j = 1280" by simp
  then show ?case by (simp add: for_j.simps)
next
  case (Suc d)
  then have j: "j < 1280" by simp
  have step: "body n a i j (paint a n (4 * (i * 1280 + j)) r)
      = paint a n (4 * (i * 1280 + (j + 1))) r"
    using body_paint [OF h j, of i n] len j by (simp add: algebra_simps)
  have "for_j n a i (j + 1) (paint a n (4 * (i * 1280 + (j + 1))) r)
      = paint a n (4 * (i * 1280 + 1280)) r"
    using Suc.hyps(1) [of "j + 1"] Suc.hyps(2) j by simp
  then show ?case
    using j step by (subst for_j.simps) simp
qed

lemma for_i_paint:
  assumes h: "heap r a = Some b" and len: "3686400 \<le> length b"
  shows "i \<le> 720 \<Longrightarrow>
    for_i n a i (paint a n (4 * (i * 1280)) r) = paint a n 3686400 r"
proof (induction "720 - i" arbitrary: i)
  case 0
  then have "i = 720" by simp
  then show ?case by (simp add: for_i.simps)
next
  case (Suc d)
  then have i: "i < 720" by simp
  have "for_j n a i 0 (paint a n (4 * (i * 1280 + 0)) r) = paint a n (4 * (i * 1280 + 1280)) r"
    using i len by (intro for_j_paint [OF h]) simp_all
  then have step: "for_j n a i 0 (paint a n (4 * (i * 1280)) r)
      = paint a n (4 * ((i + 1) * 1280)) r"
    by (simp add: algebra_simps)
  have "for_i n a (i + 1) (paint a n (4 * ((i + 1) * 1280)) r) = paint a n 3686400 r"
    using Suc.hyps(1) [of "i + 1"] Suc.hyps(2) i by simp
  then show ?case
    using i step by (subst for_i.simps) simp
qed

lemma for_i_fills:
  assumes h: "heap r a = Some b" and len: "length b = 3686400"
  shows "for_i n a 0 r =
    r\<lparr>heap := (heap r)(a \<mapsto> frame_of n), writes := writes r @ [0..<3686400]\<rparr>"
proof -
  have "for_i n a 0 (paint a n (4 * (0 * 1280)) r) = paint a n 3686400 r"
    using len by (intro for_i_paint [OF h]) simp_all
  then have "for_i n a 0 r = paint a n 3686400 r"
    by (simp add: paint_0)
  also have "\<dots> = r\<lparr>heap := (heap r)(a \<mapsto> frame_of n), writes := writes r @ [0..<3686400]\<rparr>"
    using h len painted_full [of b 3686400 n] by (simp add: paint_def frame_of_def)
  finally show ?thesis .
qed

subsection \<open>The loops leave everything but the bytes and the log of writes alone\<close>

lemma store_u8_frame:
  "interval (store_u8 a k v r) = interval r"
  "trace (store_u8 a k v r) = trace r"
  "next_addr (store_u8 a k v r) = next_addr r"
  by (simp_all add: store_u8_def split: option.splits)

lemma body_frame:
  "interval (body t p i j r) = interval r"
  "trace (body t p i j r) = trace r"
  "next_addr (body t p i j r) = next_addr r"
  by (simp_all add: body_def Let_def store_u8_frame)

lemma for_j_frame:
  "interval (for_j t p i j r) = interval r \<and> trace (for_j t p i j r) = trace r \<and>
   next_addr (for_j t p i j r) = next_addr r"
proof (induction t p i j r rule: for_j.induct)
  case (1 t p i j r)
  show ?case
  proof (cases "j < 1280")
    case True
    with 1 show ?thesis by (subst (1 2 3) for_j.simps) (simp add: body_frame)
  next
    case False
    then show ?thesis by (simp add: for_j.simps)
  qed
qed

lemma for_i_frame:
  "interval (for_i t p i r) = interval r \<and> trace (for_i t p i r) = trace r \<and>
   next_addr (for_i t p i r) = next_addr r"
proof (induction t p i r rule: for_i.induct)
  case (1 t p i r)
  show ?case
  proof (cases "i < 720")
    case True
    with 1 show ?thesis by (subst (1 2 3) for_i.simps) (simp add: for_j_frame)
  next
    case False
    then show ?thesis by (simp add: for_i.simps)
  qed
qed

lemma callback_interval: "interval (rt (callback s)) = interval (rt s)"
  by (simp add: callback_def Let_def Camera_send_def for_i_frame split: option.splits)

subsection \<open>The delay: 1000.0 / 60.0 in binary64\<close>








subsection \<open>The states of the demo\<close>

lemma main_eq:
  "main = \<lparr>FPS = 60, camera = Camera 1280 720, pixels = 0, timer = 0,
      rt = \<lparr>heap = [0 \<mapsto> replicate 3686400 0], next_addr = Suc 0, interval = True,
            delay = binary64_div 1000 (of_nat 60),
            trace = [Constructed (Camera 1280 720), Allocated 0 3686400,
                     Started (Camera 1280 720), Interval_set],
            writes = []\<rparr>\<rparr>"
  by (simp add: main_def startup_def new_Camera_def new_Uint8Array_def Camera_start_def
      setInterval_def del: of_nat_numeral)

lemma length_frame_of: "length (frame_of n) = 3686400"
  by (simp add: frame_of_def)

lemma callback_eq:
  assumes "heap (rt s) (pixels s) = Some b" and "length b = 3686400"
  shows "callback s =
    s\<lparr>rt := (rt s)\<lparr>heap := (heap (rt s))(pixels s \<mapsto> frame_of (timer s)),
                   writes := writes (rt s) @ [0..<3686400],
                   trace := trace (rt s) @ [Sent (camera s) (pixels s) (frame_of (timer s))]\<rparr>,
      timer := increment (timer s)\<rparr>"
  by (simp add: callback_def Let_def for_i_fills [OF assms] Camera_send_def)

lemma run_ready:
  "interval (rt (run n)) \<and>
   (\<exists>b. heap (rt (run n)) (pixels (run n)) = Some b \<and> length b = 3686400)"
proof (induction n)
  case 0
  show ?case by (simp add: main_eq)
next
  case (Suc n)
  then obtain b where b: "heap (rt (run n)) (pixels (run n)) = Some b" "length b = 3686400"
    and i: "interval (rt (run n))" by blast
  show ?case
    using i by (simp add: fire_def callback_eq [OF b] length_frame_of)
qed

lemma run_Suc:
  "run (Suc n) =
    (run n)\<lparr>rt := (rt (run n))\<lparr>heap := (heap (rt (run n)))(pixels (run n) \<mapsto> frame_of (timer (run n))),
                   writes := writes (rt (run n)) @ [0..<3686400],
                   trace := trace (rt (run n)) @
                     [Sent (camera (run n)) (pixels (run n)) (frame_of (timer (run n)))]\<rparr>,
      timer := increment (timer (run n))\<rparr>"
proof -
  from run_ready [of n] obtain b
    where b: "heap (rt (run n)) (pixels (run n)) = Some b" "length b = 3686400"
      and i: "interval (rt (run n))" by blast
  show ?thesis
    using i by (simp add: fire_def callback_eq [OF b])
qed

lemma run_variables:
  "FPS (run n) = 60 \<and> camera (run n) = Camera 1280 720 \<and> pixels (run n) = 0 \<and>
   next_addr (rt (run n)) = 1"
proof (induction n)
  case 0
  show ?case by (simp add: main_eq)
next
  case (Suc n)
  then show ?case by (simp add: run_Suc del: run.simps)
qed

lemma heap_run_other: "a \<noteq> 0 \<Longrightarrow> heap (rt (run n)) a = None"
proof (induction n)
  case 0
  then show ?case by (simp add: main_eq)
next
  case (Suc n)
  then show ?case by (simp add: run_Suc run_variables del: run.simps)
qed

lemma dom_heap_run: "dom (heap (rt (run n))) = {0}"
proof
  show "dom (heap (rt (run n))) \<subseteq> {0}"
  proof
    fix a assume "a \<in> dom (heap (rt (run n)))"
    then have "heap (rt (run n)) a \<noteq> None" by (simp add: dom_def)
    with heap_run_other [of a n] show "a \<in> {0}" by blast
  qed
  show "{0} \<subseteq> dom (heap (rt (run n)))"
    using run_ready [of n] run_variables [of n] by (auto simp: dom_def)
qed


lemma timer_run: "timer (run n) = min n (2 ^ 53)"
proof (induction n)
  case 0
  show ?case by (simp add: main_eq)
next
  case (Suc n)
  then show ?case by (simp add: run_Suc increment_def min_def del: run.simps)
qed

lemma buffer_run_Suc: "buffer (run (Suc n)) = frame_of (timer (run n))"
  by (simp add: run_Suc buffer_def del: run.simps)

lemma buffer_main: "buffer (run 0) = replicate 3686400 0"
  by (simp add: main_eq buffer_def)

lemma length_buffer_run: "length (buffer (run n)) = 3686400"
  by (cases n) (simp_all add: buffer_main buffer_run_Suc length_frame_of del: run.simps)

lemma trace_run:
  "trace (rt (run n)) =
     [Constructed (Camera 1280 720), Allocated 0 3686400, Started (Camera 1280 720), Interval_set]
     @ map (\<lambda>k. Sent (Camera 1280 720) 0 (buffer (run (Suc k)))) [0..<n]"
proof (induction n)
  case 0
  show ?case by (simp add: main_eq)
next
  case (Suc n)
  have "trace (rt (run (Suc n))) =
      trace (rt (run n)) @ [Sent (Camera 1280 720) 0 (buffer (run (Suc n)))]"
    unfolding buffer_run_Suc by (simp add: run_Suc run_variables del: run.simps)
  with Suc show ?case by (simp del: run.simps)
qed

lemma frame_of_nth: "k < 3686400 \<Longrightarrow> frame_of n ! k = frame_byte n k"
  by (simp add: frame_of_def)

subsection \<open>Pixels, and the log of writes\<close>

lemma frame_of_pixel:
  assumes i: "i < 720" and j: "j < 1280"
  shows "frame_of n ! (4 * (i * 1280 + j)) = of_nat (n mod 256)"
    and "frame_of n ! (4 * (i * 1280 + j) + 1) = 0"
    and "frame_of n ! (4 * (i * 1280 + j) + 2) = of_nat (i mod 256)"
    and "frame_of n ! (4 * (i * 1280 + j) + 3) = 255"
proof -
  let ?m = "4 * (i * 1280 + j)"
  have e: "?m + 1 = Suc ?m" "?m + 2 = Suc (Suc ?m)" "?m + 3 = Suc (Suc (Suc ?m))"
    by presburger+
  have in_range: "?m + 3 < 3686400" using i j by simp
  then have r: "?m < 3686400" "?m + 1 < 3686400" "?m + 2 < 3686400" by linarith+
  show "frame_of n ! ?m = of_nat (n mod 256)"
    unfolding frame_of_nth [OF r(1)] by (rule frame_byte_pixel(1) [OF j])
  show "frame_of n ! (?m + 1) = 0"
    unfolding frame_of_nth [OF r(2)] unfolding e by (rule frame_byte_pixel(2) [OF j])
  show "frame_of n ! (?m + 2) = of_nat (i mod 256)"
    unfolding frame_of_nth [OF r(3)] unfolding e by (rule frame_byte_pixel(3) [OF j])
  show "frame_of n ! (?m + 3) = 255"
    unfolding frame_of_nth [OF in_range] unfolding e by (rule frame_byte_pixel(4) [OF j])
qed

lemma writes_run_Suc:
  "writes (rt (run (Suc n))) = writes (rt (run n)) @ [0..<3686400]"
  by (simp add: run_Suc del: run.simps)

lemma writes_run_in_range: "x \<in> set (writes (rt (run n))) \<Longrightarrow> x < 3686400"
proof (induction n)
  case 0
  then show ?case by (simp add: main_eq)
next
  case (Suc n)
  then show ?case unfolding writes_run_Suc by auto
qed

lemma unat_byte: "v < 256 \<Longrightarrow> unat (of_nat v :: u8) = v"
  by (simp add: unat_of_nat)

section \<open>The claims\<close>

text \<open>
  Claim C1. After every call of the demo's timer callback the pixel buffer is
  1280 * 720 * 4 = 3686400 bytes long, and the alpha byte of every pixel, the one at
  index \<open>4 * (i * 1280 + j) + 3\<close> for a row \<open>i < 720\<close> and a column \<open>j < 1280\<close>, is 255.
  (\<open>run (Suc n)\<close> is the state in which the \<open>n\<close>-th call ends.)
\<close>

theorem alpha_and_length_after_every_tick:
  assumes "i < 720" and "j < 1280"
  shows "length (buffer (run (Suc n))) = 1280 * 720 * 4 \<and>
         length (buffer (run (Suc n))) = 3686400 \<and>
         buffer (run (Suc n)) ! (4 * (i * 1280 + j) + 3) = 255"
proof -
  have "buffer (run (Suc n)) ! (4 * (i * 1280 + j) + 3) = 255"
    unfolding buffer_run_Suc by (rule frame_of_pixel(4) [OF assms])
  moreover have "length (buffer (run (Suc n))) = 3686400"
    by (rule length_buffer_run)
  ultimately show ?thesis by simp
qed

theorem alpha_and_length_after_every_tick_witness:
  "length (buffer (run (Suc 2))) = 3686400 \<and>
   buffer (run (Suc 2)) ! 3686399 = 255"
  using alpha_and_length_after_every_tick [of 719 1279 2] by simp

text \<open>
  Claim C2, as amended. Let \<open>n < 2 ^ 53\<close>. The \<open>n\<close>-th call of the callback (counted from
  0) starts with \<^verbatim>\<open>timer\<close> equal to \<open>n\<close>. For every row \<open>i < 720\<close> and column \<open>j < 1280\<close> it
  leaves the four bytes at \<open>4 * (i * 1280 + j)\<close> as \<open>n mod 256\<close>, 0, \<open>i mod 256\<close>, 255. It then
  hands the buffer to \<^verbatim>\<open>camera.send\<close>, holding \<open>frame_of n\<close>, which depends on \<open>n\<close> alone, and
  adds exactly 1 to \<^verbatim>\<open>timer\<close>.
\<close>

theorem tick_paints_frame_and_counts:
  assumes "n < 2 ^ 53" and "i < 720" and "j < 1280"
  shows "timer (run n) = n \<and>
         unat (buffer (run (Suc n)) ! (4 * (i * 1280 + j))) = n mod 256 \<and>
         unat (buffer (run (Suc n)) ! (4 * (i * 1280 + j) + 1)) = 0 \<and>
         unat (buffer (run (Suc n)) ! (4 * (i * 1280 + j) + 2)) = i mod 256 \<and>
         unat (buffer (run (Suc n)) ! (4 * (i * 1280 + j) + 3)) = 255 \<and>
         buffer (run (Suc n)) = frame_of n \<and>
         trace (rt (run (Suc n))) =
           trace (rt (run n)) @ [Sent (camera (run n)) (pixels (run n)) (frame_of n)] \<and>
         timer (run (Suc n)) = n + 1"
proof -
  have t: "timer (run n) = n" and t': "timer (run (Suc n)) = n + 1"
    using assms(1) unfolding timer_run by simp_all
  have b: "buffer (run (Suc n)) = frame_of n"
    unfolding buffer_run_Suc t ..
  have tr: "trace (rt (run (Suc n))) =
      trace (rt (run n)) @ [Sent (camera (run n)) (pixels (run n)) (frame_of n)]"
    using t by (simp add: run_Suc del: run.simps)
  have "unat (frame_of n ! (4 * (i * 1280 + j))) = n mod 256"
    and "unat (frame_of n ! (4 * (i * 1280 + j) + 1)) = 0"
    and "unat (frame_of n ! (4 * (i * 1280 + j) + 2)) = i mod 256"
    and "unat (frame_of n ! (4 * (i * 1280 + j) + 3)) = 255"
    unfolding frame_of_pixel [OF assms(2,3)] by (simp_all add: unat_byte)
  with t t' b tr show ?thesis by simp
qed

theorem tick_paints_frame_and_counts_witness:
  "timer (run 7) = 7 \<and>
   unat (buffer (run (Suc 7)) ! (4 * (300 * 1280 + 5))) = 7 \<and>
   unat (buffer (run (Suc 7)) ! (4 * (300 * 1280 + 5) + 1)) = 0 \<and>
   unat (buffer (run (Suc 7)) ! (4 * (300 * 1280 + 5) + 2)) = 44 \<and>
   unat (buffer (run (Suc 7)) ! (4 * (300 * 1280 + 5) + 3)) = 255 \<and>
   timer (run (Suc 7)) = 8"
  using tick_paints_frame_and_counts [of 7 300 5] by auto

text \<open>
  The claim as written, for every \<open>n\<close>, fails at \<open>n = 2 ^ 53\<close>: the call starts with the
  counter at \<open>2 ^ 53\<close> and ends with the counter still at \<open>2 ^ 53\<close>, since a JavaScript
  number cannot hold \<open>2 ^ 53 + 1\<close>.
\<close>

theorem timer_stops_counting_counterexample:
  "timer (run (2 ^ 53)) = 2 ^ 53 \<and>
   timer (run (Suc (2 ^ 53))) = 2 ^ 53 \<and>
   timer (run (Suc (2 ^ 53))) \<noteq> timer (run (2 ^ 53)) + 1"
  unfolding timer_run by simp

text \<open>
  Claim C3. In the format script and in the check script alike: when the first command
  exits with a status other than zero, the script ends in an uncaught error and the
  second command is never started (the first command is the only one run); when the
  first command exits with status zero, the second command is run after it.
\<close>

theorem scripts_stop_at_first_failure:
  \<open>(fst (host w ''prettier --write "**/*.{js,ts,json}"'') \<noteq> 0 \<longrightarrow>
      aborted (format_script host w) \<and>
      commands_run (format_script host w) = [''prettier --write "**/*.{js,ts,json}"'']) \<and>
   (fst (host w ''prettier --write "**/*.{js,ts,json}"'') = 0 \<longrightarrow>
      commands_run (format_script host w) =
        [''prettier --write "**/*.{js,ts,json}"'', ''cargo fmt'']) \<and>
   (fst (host w ''prettier --check "**/*.{js,ts,json}"'') \<noteq> 0 \<longrightarrow>
      aborted (check_script host w) \<and>
      commands_run (check_script host w) = [''prettier --check "**/*.{js,ts,json}"'']) \<and>
   (fst (host w ''prettier --check "**/*.{js,ts,json}"'') = 0 \<longrightarrow>
      commands_run (check_script host w) =
        [''prettier --check "**/*.{js,ts,json}"'', ''eslint . --ext ".ts,.js"''])\<close>
proof (intro conjI impI)
  assume \<open>fst (host w ''prettier --write "**/*.{js,ts,json}"'') \<noteq> 0\<close>
  from format_script_fail [of host w, OF this]
  show \<open>aborted (format_script host w)\<close>
    and \<open>commands_run (format_script host w) = [''prettier --write "**/*.{js,ts,json}"'']\<close>
    by (simp_all add: commands_run_def)
next
  assume \<open>fst (host w ''prettier --write "**/*.{js,ts,json}"'') = 0\<close>
  from format_script_ok [of host w, OF this]
  show \<open>commands_run (format_script host w) =
      [''prettier --write "**/*.{js,ts,json}"'', ''cargo fmt'']\<close>
    by (simp add: commands_run_def)
next
  assume \<open>fst (host w ''prettier --check "**/*.{js,ts,json}"'') \<noteq> 0\<close>
  from check_script_fail [of host w, OF this]
  show \<open>aborted (check_script host w)\<close>
    and \<open>commands_run (check_script host w) = [''prettier --check "**/*.{js,ts,json}"'']\<close>
    by (simp_all add: commands_run_def)
next
  assume \<open>fst (host w ''prettier --check "**/*.{js,ts,json}"'') = 0\<close>
  from check_script_ok [of host w, OF this]
  show \<open>commands_run (check_script host w) =
      [''prettier --check "**/*.{js,ts,json}"'', ''eslint . --ext ".ts,.js"'']\<close>
    by (simp add: commands_run_def)
qed

text \<open>
  The theorem at two machines: one where every command exits with status 1, one where
  every command exits with status 0.
\<close>

theorem scripts_stop_at_first_failure_witness:
  \<open>aborted (format_script (\<lambda>(w::unit) c. (1, w)) ()) \<and>
   commands_run (format_script (\<lambda>(w::unit) c. (1, w)) ()) =
     [''prettier --write "**/*.{js,ts,json}"''] \<and>
   commands_run (format_script (\<lambda>(w::unit) c. (0, w)) ()) =
     [''prettier --write "**/*.{js,ts,json}"'', ''cargo fmt''] \<and>
   aborted (check_script (\<lambda>(w::unit) c. (1, w)) ()) \<and>
   commands_run (check_script (\<lambda>(w::unit) c. (1, w)) ()) =
     [''prettier --check "**/*.{js,ts,json}"''] \<and>
   commands_run (check_script (\<lambda>(w::unit) c. (0, w)) ()) =
     [''prettier --check "**/*.{js,ts,json}"'', ''eslint . --ext ".ts,.js"'']\<close>
  using scripts_stop_at_first_failure [of "\<lambda>(w::unit) c. (1, w)" "()"]
    scripts_stop_at_first_failure [of "\<lambda>(w::unit) c. (0, w)" "()"]
  by simp

text \<open>
  Claim C4, as amended. The format script starts the code formatter in write mode
  (prettier --write over **/*.{js,ts,json}) first, and waits for it to exit. When it
  exits with status zero the script then starts the native-toolchain formatter
  (cargo fmt) and waits for it: these two commands, in this order, and nothing else.
  When the code formatter exits with another status, it is the only command run.
\<close>

theorem format_script_history:
  \<open>history (format_script host w) =
    (if fst (host w ''prettier --write "**/*.{js,ts,json}"'') = 0
     then [Spawned ''prettier --write "**/*.{js,ts,json}"'' Inherit,
           Exited ''prettier --write "**/*.{js,ts,json}"'' 0,
           Spawned ''cargo fmt'' Inherit,
           Exited ''cargo fmt''
             (fst (host (snd (host w ''prettier --write "**/*.{js,ts,json}"'')) ''cargo fmt''))]
     else [Spawned ''prettier --write "**/*.{js,ts,json}"'' Inherit,
           Exited ''prettier --write "**/*.{js,ts,json}"''
             (fst (host w ''prettier --write "**/*.{js,ts,json}"''))])\<close>
proof (cases \<open>fst (host w ''prettier --write "**/*.{js,ts,json}"'') = 0\<close>)
  case True
  from format_script_ok [of host w, OF True] True show ?thesis by simp
next
  case False
  from format_script_fail [of host w, OF False] False show ?thesis by simp
qed

theorem format_script_history_witness:
  \<open>history (format_script (\<lambda>(w::nat) c. (if c = ''cargo fmt'' then 3 else 0, Suc w)) 0) =
    [Spawned ''prettier --write "**/*.{js,ts,json}"'' Inherit,
     Exited ''prettier --write "**/*.{js,ts,json}"'' 0,
     Spawned ''cargo fmt'' Inherit,
     Exited ''cargo fmt'' 3]\<close>
  using format_script_history [of "\<lambda>(w::nat) c. (if c = ''cargo fmt'' then 3 else 0, Suc w)" 0]
  by simp

text \<open>
  The claim as written (exactly two commands are run) fails on a machine where the code
  formatter exits with status 1: one command is run, and cargo fmt is not among them.
\<close>

theorem format_script_two_commands_counterexample:
  \<open>commands_run (format_script (\<lambda>(w::unit) c. (1, w)) ()) =
     [''prettier --write "**/*.{js,ts,json}"''] \<and>
   length (commands_run (format_script (\<lambda>(w::unit) c. (1, w)) ())) \<noteq> 2\<close>
  by (simp add: format_script_def and_then_def boot_def execSync_def commands_run_def)

text \<open>
  Claim C5, as amended. The check script starts the code formatter in check-only mode
  (prettier --check) first, and waits for it to exit. When it exits with status zero
  the script then starts the linter (eslint with the extensions .ts,.js) and waits for
  it: these two commands, in this order, and nothing else. When the code formatter
  exits with another status, it is the only command run. No command line the script
  runs holds a flag that writes or fixes (--write, -w, --fix).
\<close>

theorem check_script_history:
  \<open>history (check_script host w) =
    (if fst (host w ''prettier --check "**/*.{js,ts,json}"'') = 0
     then [Spawned ''prettier --check "**/*.{js,ts,json}"'' Inherit,
           Exited ''prettier --check "**/*.{js,ts,json}"'' 0,
           Spawned ''eslint . --ext ".ts,.js"'' Inherit,
           Exited ''eslint . --ext ".ts,.js"''
             (fst (host (snd (host w ''prettier --check "**/*.{js,ts,json}"''))
                     ''eslint . --ext ".ts,.js"''))]
     else [Spawned ''prettier --check "**/*.{js,ts,json}"'' Inherit,
           Exited ''prettier --check "**/*.{js,ts,json}"''
             (fst (host w ''prettier --check "**/*.{js,ts,json}"''))]) \<and>
   (\<forall>c \<in> set (commands_run (check_script host w)).
      \<not> includes_str c ''--write'' \<and> \<not> includes_str c '' -w'' \<and> \<not> includes_str c ''--fix'')\<close>
proof (cases \<open>fst (host w ''prettier --check "**/*.{js,ts,json}"'') = 0\<close>)
  case True
  from check_script_ok [of host w, OF True] True show ?thesis
    by (simp add: commands_run_def)
next
  case False
  from check_script_fail [of host w, OF False] False show ?thesis
    by (simp add: commands_run_def)
qed

theorem check_script_history_witness:
  \<open>history (check_script (\<lambda>(w::nat) c. (0, Suc w)) 0) =
    [Spawned ''prettier --check "**/*.{js,ts,json}"'' Inherit,
     Exited ''prettier --check "**/*.{js,ts,json}"'' 0,
     Spawned ''eslint . --ext ".ts,.js"'' Inherit,
     Exited ''eslint . --ext ".ts,.js"'' 0] \<and>
   ''eslint . --ext ".ts,.js"'' \<in> set (commands_run (check_script (\<lambda>(w::nat) c. (0, Suc w)) 0)) \<and>
   \<not> includes_str ''eslint . --ext ".ts,.js"'' ''--fix''\<close>
  using check_script_history [of "\<lambda>(w::nat) c. (0, Suc w)" 0]
  by (simp add: commands_run_def)

text \<open>
  The claim as written (exactly two commands are run) fails on a machine where the code
  formatter exits with status 1: one command is run, and the linter is not among them.
\<close>

theorem check_script_two_commands_counterexample:
  \<open>commands_run (check_script (\<lambda>(w::unit) c. (1, w)) ()) =
     [''prettier --check "**/*.{js,ts,json}"''] \<and>
   length (commands_run (check_script (\<lambda>(w::unit) c. (1, w)) ())) \<noteq> 2\<close>
  by (simp add: check_script_def and_then_def boot_def execSync_def commands_run_def)

text \<open>
  Claim C6. The demo deals with the camera in a fixed order: it constructs
  \<open>Camera 1280 720\<close> once, calls \<^verbatim>\<open>start\<close> on it once, and only after that calls \<^verbatim>\<open>send\<close>
  with the pixel buffer, once per call of the timer callback. After \<open>n\<close> calls of the
  callback the calls into the camera are, in order: the construction, the start, and
  \<open>n\<close> sends. So the start comes before every send.
\<close>

theorem camera_calls_in_order:
  "filter is_camera_call (trace (rt (run n))) =
     Constructed (Camera 1280 720) # Started (Camera 1280 720) #
     map (\<lambda>k. Sent (Camera 1280 720) (pixels main) (buffer (run (Suc k)))) [0..<n] \<and>
   camera (run n) = Camera 1280 720 \<and> pixels (run n) = pixels main"
proof -
  have p: "pixels main = 0" by (simp add: main_eq)
  have "filter is_camera_call (map (\<lambda>k. Sent (Camera 1280 720) 0 (buffer (run (Suc k)))) [0..<n])
      = map (\<lambda>k. Sent (Camera 1280 720) 0 (buffer (run (Suc k)))) [0..<n]"
    by (induction n) (simp_all del: run.simps)
  then show ?thesis
    unfolding trace_run p using run_variables [of n] by (simp del: run.simps)
qed



text \<open>
  Claim C8. The demo never cancels its timer. The interval is registered when the top
  level has run and in every state after any number of calls of the callback; and a
  call of the callback, from any state at all, leaves the registration as it finds it.
\<close>

theorem interval_never_cleared:
  "interval (rt (run n)) \<and> interval (rt (callback s)) = interval (rt s)"
  using run_ready [of n] callback_interval [of s] by blast

text \<open>
  Claim C9. The pixel buffer is allocated once, before the interval is registered, and
  every call of the callback writes that buffer in place. In every state the demo
  reaches, the variables \<^verbatim>\<open>pixels\<close>, \<^verbatim>\<open>camera\<close> and \<^verbatim>\<open>FPS\<close> hold what the top level gave
  them; one buffer has been allocated and the heap holds that one alone, with
  1280 * 720 * 4 bytes; the effects so far are the construction, the allocation, the
  start and the registration, followed by sends of that same buffer. A call of the
  callback makes 1280 * 720 * 4 element writes, all to that buffer: the allocation left
  it all zero, and after the call the buffer at the same address holds the frame for
  the value the counter had, which is not the zeroed buffer. The call changes nothing
  but the bytes of that buffer and \<^verbatim>\<open>timer\<close> (and, in the model, the record of effects and
  the log of writes).
\<close>

theorem buffer_allocated_once_and_reused:
  "pixels (run n) = pixels main \<and> camera (run n) = camera main \<and> FPS (run n) = FPS main \<and>
   next_addr (rt (run n)) = 1 \<and>
   dom (heap (rt (run n))) = {pixels main} \<and>
   length (buffer (run n)) = 1280 * 720 * 4 \<and>
   trace (rt (run n)) =
     [Constructed (camera main), Allocated (pixels main) (1280 * 720 * 4),
      Started (camera main), Interval_set]
     @ map (\<lambda>k. Sent (camera main) (pixels main) (buffer (run (Suc k)))) [0..<n] \<and>
   run (Suc n) =
     (run n)\<lparr>timer := timer (run (Suc n)),
              rt := (rt (run n))\<lparr>heap := (heap (rt (run n)))(pixels main \<mapsto> buffer (run (Suc n))),
                                 trace := trace (rt (run (Suc n))),
                                 writes := writes (rt (run (Suc n)))\<rparr>\<rparr> \<and>
   heap (rt (run 0)) (pixels main) = Some (replicate (1280 * 720 * 4) 0) \<and>
   heap (rt (run (Suc n))) (pixels main) = Some (frame_of (timer (run n))) \<and>
   buffer (run (Suc n)) = frame_of (timer (run n)) \<and>
   buffer (run (Suc n)) \<noteq> replicate (1280 * 720 * 4) 0 \<and>
   writes (rt (run (Suc n))) = writes (rt (run n)) @ [0..<1280 * 720 * 4]"
proof -
  have m: "pixels main = 0" "camera main = Camera 1280 720" "FPS main = 60"
    by (simp_all add: main_eq)
  have h0: "heap (rt (run 0)) 0 = Some (replicate 3686400 0)"
    by (simp add: main_eq)
  have h: "heap (rt (run (Suc n))) 0 = Some (frame_of (timer (run n)))"
    using run_variables [of n] by (simp add: run_Suc del: run.simps)
  have "frame_of (timer (run n)) ! (4 * (0 * 1280 + 0) + 3) = 255"
    by (rule frame_of_pixel(4)) simp_all
  then have "frame_of (timer (run n)) ! 3 \<noteq> replicate 3686400 (0 :: u8) ! 3"
    by simp
  then have ne: "buffer (run (Suc n)) \<noteq> replicate 3686400 0"
    unfolding buffer_run_Suc by metis
  have w: "writes (rt (run (Suc n))) = writes (rt (run n)) @ [0..<3686400]"
    by (rule writes_run_Suc)
  note b = buffer_run_Suc [of n]
  have v: "pixels (run n) = 0" "camera (run n) = Camera 1280 720" "FPS (run n) = 60"
    "next_addr (rt (run n)) = 1"
    using run_variables [of n] by simp_all
  have step: "run (Suc n) =
     (run n)\<lparr>timer := timer (run (Suc n)),
              rt := (rt (run n))\<lparr>heap := (heap (rt (run n)))(0 \<mapsto> buffer (run (Suc n))),
                                 trace := trace (rt (run (Suc n))),
                                 writes := writes (rt (run (Suc n)))\<rparr>\<rparr>"
    unfolding buffer_run_Suc by (subst (1 2 3 4) run_Suc) (simp add: v del: run.simps)
  show ?thesis
    unfolding m
    using v step dom_heap_run [of n] length_buffer_run [of n] trace_run [of n] h0 h b ne w
    by (simp del: run.simps)
qed

text \<open>
  Claim C10. Every write of the nested loop is in range: for a row \<open>i < 720\<close>, a column
  \<open>j < 1280\<close> and a channel \<open>k < 4\<close> the index \<open>4 * (i * 1280 + j) + k\<close> is below the length
  of the buffer, 1280 * 720 * 4. The writes of one call of the callback are, in order,
  the indices \<open>0, 1, ...\<close> up to the length of the buffer: every index once. No write the
  demo has ever made is out of range.
\<close>

theorem writes_in_bounds_and_cover:
  assumes "i < 720" and "j < 1280" and "k < 4"
  shows "4 * (i * 1280 + j) + k < length (buffer (run n)) \<and>
         length (buffer (run n)) = 1280 * 720 * 4 \<and>
         writes (rt (run (Suc n))) = writes (rt (run n)) @ [0..<length (buffer (run n))] \<and>
         (\<forall>x \<in> set (writes (rt (run n))). x < length (buffer (run n)))"
proof -
  have "4 * (i * 1280 + j) + k < 3686400" using assms by simp
  then show ?thesis
    unfolding length_buffer_run writes_run_Suc using writes_run_in_range [of _ n] by simp
qed

theorem writes_in_bounds_and_cover_witness:
  "4 * (719 * 1280 + 1279) + 3 < length (buffer (run 0)) \<and>
   length (buffer (run 0)) = 3686400 \<and>
   writes (rt (run (Suc (Suc 0)))) = writes (rt (run (Suc 0))) @ [0..<length (buffer (run (Suc 0)))] \<and>
   3686399 \<in> set (writes (rt (run (Suc 0)))) \<and> 3686399 < length (buffer (run (Suc 0)))"
proof -
  note a = writes_in_bounds_and_cover [of 719 1279 3 0]
  note b = writes_in_bounds_and_cover [of 719 1279 3 "Suc 0"]
  have len0: "length (buffer (run 0)) = 3686400" using a by simp
  have w1: "writes (rt (run (Suc 0))) = writes (rt (run 0)) @ [0..<length (buffer (run 0))]"
    using a by (simp del: run.simps)
  have "3686399 \<in> set (writes (rt (run (Suc 0))))"
    unfolding w1 len0 by simp
  with a b show ?thesis by (simp del: run.simps)
qed

end
